theory Spec2Isabelle
  imports Main
begin

section \<open>Python values used by the bulk-invite script\<close>

text \<open>
  A Python \<open>str\<close> is modelled as a \<open>string\<close> whose characters are code points below 256.
  \<open>isspace\<close> lists the code points below 256 that \<open>str.strip()\<close> removes, \<open>lower_char\<close>
  is \<open>str.lower()\<close> on one such code point.
\<close>

definition isspace :: "char \<Rightarrow> bool" where
  "isspace c =
     (let n = (of_char c :: nat)
      in (9 \<le> n \<and> n \<le> 13) \<or> (28 \<le> n \<and> n \<le> 32) \<or> n = 133 \<or> n = 160)"

definition strip :: "string \<Rightarrow> string" where
  "strip s = rev (dropWhile isspace (rev (dropWhile isspace s)))"

definition lower_char :: "char \<Rightarrow> char" where
  "lower_char c =
     (let n = (of_char c :: nat)
      in if (65 \<le> n \<and> n \<le> 90) \<or> (192 \<le> n \<and> n \<le> 222 \<and> n \<noteq> 215)
         then char_of (n + 32) else c)"

definition lower :: "string \<Rightarrow> string" where
  "lower s = map lower_char s"

text \<open>\<open>starts_with s p\<close>: \<open>s.startswith(p)\<close>; \<open>contains s p\<close>: the test \<open>p in s\<close>.\<close>

fun starts_with :: "string \<Rightarrow> string \<Rightarrow> bool" where
  "starts_with s [] = True"
| "starts_with [] (p # ps) = False"
| "starts_with (c # cs) (p # ps) = (c = p \<and> starts_with cs ps)"

fun contains :: "string \<Rightarrow> string \<Rightarrow> bool" where
  "contains [] p = (p = [])"
| "contains (c # cs) p = (starts_with (c # cs) p \<or> contains cs p)"

text \<open>\<open>str(i)\<close> for a Python int: decimal digits, with a minus sign when negative.\<close>

definition digit_char :: "nat \<Rightarrow> char" where
  "digit_char d = char_of (48 + d)"

fun digits :: "nat \<Rightarrow> string" where
  "digits n = (if n < 10 then [digit_char n] else digits (n div 10) @ [digit_char (n mod 10)])"

declare digits.simps [simp del]

definition str_int :: "int \<Rightarrow> string" where
  "str_int i = (if i < 0 then CHR ''-'' # digits (nat (- i)) else digits (nat i))"

text \<open>
  A cell of the data frame: the values \<open>pandas.read_csv\<close> puts into a row, apart from
  floats other than NaN (an empty CSV cell is read as NaN). \<open>truthy\<close> is Python's truth
  value, \<open>str_cell\<close> is \<open>str(v)\<close>, \<open>py_or a b\<close> is \<open>a or b\<close>.
\<close>

datatype cell = PyStr string | PyInt int | PyBool bool | PyNaN

fun truthy :: "cell \<Rightarrow> bool" where
  "truthy (PyStr s) = (s \<noteq> [])"
| "truthy (PyInt i) = (i \<noteq> 0)"
| "truthy (PyBool b) = b"
| "truthy PyNaN = True"

fun str_cell :: "cell \<Rightarrow> string" where
  "str_cell (PyStr s) = s"
| "str_cell (PyInt i) = str_int i"
| "str_cell (PyBool b) = (if b then ''True'' else ''False'')"
| "str_cell PyNaN = ''nan''"

definition py_or :: "cell \<Rightarrow> cell \<Rightarrow> cell" where
  "py_or a b = (if truthy a then a else b)"

text \<open>A row maps column names to cells; \<open>row_get r c d\<close> is \<open>row.get(c, d)\<close>.\<close>

type_synonym row = "string \<rightharpoonup> cell"

definition row_get :: "row \<Rightarrow> string \<Rightarrow> cell \<Rightarrow> cell" where
  "row_get r c d = (case r c of Some v \<Rightarrow> v | None \<Rightarrow> d)"

section \<open>Column mapping and options\<close>

text \<open>
  The values the form leaves in \<open>email_col\<close>, \<open>first_col\<close>, \<open>last_col\<close>, \<open>role_col\<close>,
  \<open>dry_run\<close> and \<open>throttle_ms\<close> (a number input with minimum 0), and the credentials.
\<close>

record config =
  api_key :: string
  account_id :: string
  email_col :: string
  first_col :: string
  last_col :: string
  role_col :: string
  dry_run :: bool
  throttle_ms :: nat

text \<open>The test \<open>col and col != "(none)"\<close> of lines 166 to 168.\<close>

definition col_selected :: "string \<Rightarrow> bool" where
  "col_selected col = (col \<noteq> [] \<and> col \<noteq> ''(none)'')"

text \<open>Lines 165 to 168: the four values read from a row.\<close>

definition norm_email :: "config \<Rightarrow> row \<Rightarrow> string" where
  "norm_email cfg r = strip (str_cell (py_or (row_get r (email_col cfg) (PyStr [])) (PyStr [])))"

definition norm_first :: "config \<Rightarrow> row \<Rightarrow> string" where
  "norm_first cfg r =
     (if col_selected (first_col cfg) then strip (str_cell (row_get r (first_col cfg) (PyStr [])))
      else [])"

definition norm_last :: "config \<Rightarrow> row \<Rightarrow> string" where
  "norm_last cfg r =
     (if col_selected (last_col cfg) then strip (str_cell (row_get r (last_col cfg) (PyStr [])))
      else [])"

definition norm_role :: "config \<Rightarrow> row \<Rightarrow> string" where
  "norm_role cfg r =
     (if col_selected (role_col cfg) then strip (str_cell (row_get r (role_col cfg) (PyStr [])))
      else ''employee'')"

section \<open>The invitation client\<close>

text \<open>The JSON body of the request: \<open>firstName\<close> and \<open>lastName\<close> are keys that may be absent.\<close>

record payload =
  pl_email :: string
  pl_role :: string
  pl_firstName :: "string option"
  pl_lastName :: "string option"

record request =
  rq_url :: string
  rq_api_key :: string
  rq_json :: payload

record response =
  status_code :: int
  resp_text :: string

text \<open>
  What \<open>requests.post\<close> does: it returns a response or raises a \<open>RequestException\<close>
  with a message. The remote side is a sequence \<open>net\<close> of such results, the k-th POST of a
  run receiving \<open>net k\<close>.
\<close>

datatype net_result = Response response | RequestException string

text \<open>
  The effects of a run, in order: \<open>Post\<close> is one \<open>requests.post\<close>, \<open>Sleep n\<close> is
  \<open>time.sleep(n)\<close> for the whole number of seconds of the backoff, \<open>SleepMillis t\<close> is the
  pacing call \<open>time.sleep(t / 1000.0)\<close>, recorded by its number of milliseconds.
\<close>

datatype event = Post request | Sleep int | SleepMillis nat

record world =
  calls :: nat
  trace :: "event list"

definition requests_post :: "(nat \<Rightarrow> net_result) \<Rightarrow> request \<Rightarrow> world \<Rightarrow> net_result \<times> world" where
  "requests_post net rq w = (net (calls w), \<lparr>calls = Suc (calls w), trace = trace w @ [Post rq]\<rparr>)"

definition time_sleep :: "int \<Rightarrow> world \<Rightarrow> world" where
  "time_sleep secs w = w\<lparr>trace := trace w @ [Sleep secs]\<rparr>"

definition BASE :: string where
  "BASE = ''https://api.payhawk.com/api/v3''"

text \<open>\<open>or_default role\<close> is \<open>role or "employee"\<close>; \<open>if_truthy v\<close> keeps a key only \<open>if v\<close>.\<close>

fun or_default :: "string option \<Rightarrow> string" where
  "or_default None = ''employee''"
| "or_default (Some s) = (if s = [] then ''employee'' else s)"

fun if_truthy :: "string option \<Rightarrow> string option" where
  "if_truthy None = None"
| "if_truthy (Some s) = (if s = [] then None else Some s)"

definition mk_payload :: "string \<Rightarrow> string option \<Rightarrow> string option \<Rightarrow> string option \<Rightarrow> payload" where
  "mk_payload email first last' role =
     \<lparr>pl_email = email, pl_role = or_default role,
      pl_firstName = if_truthy first, pl_lastName = if_truthy last'\<rparr>"

text \<open>The \<open>while True\<close> loop of \<open>post_invite\<close>, lines 46 to 54.\<close>

function post_loop ::
  "(nat \<Rightarrow> net_result) \<Rightarrow> request \<Rightarrow> int \<Rightarrow> int \<Rightarrow> world \<Rightarrow> (string + response) \<times> world" where
  "post_loop net rq max_retries retry w =
     (let res = requests_post net rq w
      in case fst res of
           RequestException e \<Rightarrow> (Inl e, snd res)
         | Response r \<Rightarrow>
             if status_code r = 429 \<and> retry < max_retries
             then post_loop net rq max_retries (retry + 1)
                    (time_sleep (min (2 ^ nat (retry + 1)) 10) (snd res))
             else (Inr r, snd res))"
  by pat_completeness auto
termination
  by (relation "measure (\<lambda>(net, rq, max_retries, retry, w). nat (max_retries - retry))") auto

declare post_loop.simps [simp del]

text \<open>The request of line 48: the URL, the API key header and the JSON body.\<close>

definition invite_request :: "string \<Rightarrow> string \<Rightarrow> payload \<Rightarrow> request" where
  "invite_request key acct pl =
     \<lparr>rq_url = BASE @ ''/accounts/'' @ acct @ ''/users'', rq_api_key = key, rq_json = pl\<rparr>"

definition post_invite ::
  "(nat \<Rightarrow> net_result) \<Rightarrow> string \<Rightarrow> string \<Rightarrow> string \<Rightarrow> string option \<Rightarrow> string option \<Rightarrow>
   string option \<Rightarrow> int \<Rightarrow> world \<Rightarrow> (string + response \<times> payload) \<times> world" where
  "post_invite net key acct email first last' role max_retries w =
     (let pl = mk_payload email first last' role;
          res = post_loop net (invite_request key acct pl) max_retries 0 w
      in case fst res of
           Inl e \<Rightarrow> (Inl e, snd res)
         | Inr r \<Rightarrow> (Inr (r, pl), snd res))"

section \<open>The batch loop\<close>

text \<open>
  An entry of \<open>results\<close> is a dict; its keys \<open>row\<close>, \<open>email\<close> and \<open>status\<close> are always
  there, the others depend on the branch that appends it. The \<open>payload\<close> of a dry-run entry
  is a dict of its own, with the keys \<open>email\<close>, \<open>first\<close>, \<open>last\<close> and \<open>role\<close>.
\<close>

record dry_payload =
  dp_email :: string
  dp_first :: string
  dp_last :: string
  dp_role :: string

record outcome =
  o_row :: int
  o_email :: string
  o_status :: string
  o_first :: "string option"
  o_last :: "string option"
  o_role :: "string option"
  o_response_snippet :: "string option"
  o_response :: "string option"
  o_payload :: "dry_payload option"
  o_error :: "string option"

definition entry :: "int \<Rightarrow> string \<Rightarrow> string \<Rightarrow> outcome" where
  "entry n email status =
     \<lparr>o_row = n, o_email = email, o_status = status, o_first = None, o_last = None,
      o_role = None, o_response_snippet = None, o_response = None, o_payload = None,
      o_error = None\<rparr>"

text \<open>Line 171, line 176, lines 193 to 203, line 189 and line 205.\<close>

definition skipped_entry :: "int \<Rightarrow> outcome" where
  "skipped_entry idx = entry (idx + 2) [] ''SKIPPED: missing email''"

definition dry_run_entry :: "int \<Rightarrow> string \<Rightarrow> string \<Rightarrow> string \<Rightarrow> string \<Rightarrow> outcome" where
  "dry_run_entry idx email first last' role =
     (entry (idx + 2) email ''DRY_RUN: would INVITE'')
       \<lparr>o_payload := Some \<lparr>dp_email = email, dp_first = first, dp_last = last', dp_role = role\<rparr>\<rparr>"

definition invite_entry ::
  "int \<Rightarrow> string \<Rightarrow> string \<Rightarrow> string \<Rightarrow> string \<Rightarrow> string \<Rightarrow> response \<Rightarrow> outcome" where
  "invite_entry idx email first last' role status resp =
     (entry (idx + 2) email status)
       \<lparr>o_first := Some first, o_last := Some last', o_role := Some role,
        o_response_snippet := Some (take 300 (resp_text resp))\<rparr>"

definition unauthorized_entry :: "int \<Rightarrow> string \<Rightarrow> response \<Rightarrow> outcome" where
  "unauthorized_entry idx email resp =
     (entry (idx + 2) email ''INVITE_ERROR 401'')\<lparr>o_response := Some (take 300 (resp_text resp))\<rparr>"

definition network_error_entry :: "int \<Rightarrow> string \<Rightarrow> string \<Rightarrow> outcome" where
  "network_error_entry idx email e =
     (entry (idx + 2) email ''NETWORK_ERROR'')\<lparr>o_error := Some e\<rparr>"

text \<open>\<open>or_none s\<close> is \<open>s or None\<close>; \<open>pace\<close> is lines 208 and 209.\<close>

definition or_none :: "string \<Rightarrow> string option" where
  "or_none s = (if s = [] then None else Some s)"

definition pace :: "config \<Rightarrow> world \<Rightarrow> world" where
  "pace cfg w =
     (if throttle_ms cfg \<noteq> 0 then w\<lparr>trace := trace w @ [SleepMillis (throttle_ms cfg)]\<rparr> else w)"

text \<open>Line 182: the call of \<open>post_invite\<close> with the values of the row.\<close>

definition invite_call ::
  "config \<Rightarrow> (nat \<Rightarrow> net_result) \<Rightarrow> row \<Rightarrow> world \<Rightarrow> (string + response \<times> payload) \<times> world" where
  "invite_call cfg net r w =
     post_invite net (api_key cfg) (account_id cfg) (norm_email cfg r) (or_none (norm_first cfg r))
       (or_none (norm_last cfg r)) (Some (or_default (Some (norm_role cfg r)))) 5 w"

datatype loop_ctl = Continue | Break

text \<open>
  One iteration of the loop of lines 164 to 211 on the row with index \<open>idx\<close>: how the loop
  goes on, the list \<open>results\<close> and the world afterwards. The progress bar and the error
  banner of the page are not part of the model.
\<close>

definition loop_body ::
  "config \<Rightarrow> (nat \<Rightarrow> net_result) \<Rightarrow> int \<Rightarrow> row \<Rightarrow> outcome list \<Rightarrow> world \<Rightarrow>
   loop_ctl \<times> outcome list \<times> world" where
  "loop_body cfg net idx r results w =
     (let email = norm_email cfg r;
          first = norm_first cfg r;
          last' = norm_last cfg r;
          role = norm_role cfg r
      in if email = [] then (Continue, results @ [skipped_entry idx], w)
         else if dry_run cfg
         then (Continue, results @ [dry_run_entry idx email first last' role], w)
         else
           (let res = invite_call cfg net r w
            in case fst res of
                 Inr (resp, pl) \<Rightarrow>
                   if status_code resp = 200 \<or> status_code resp = 201
                   then (Continue,
                         results @ [invite_entry idx email first last' role ''INVITED'' resp],
                         pace cfg (snd res))
                   else if (status_code resp = 400 \<or> status_code resp = 409)
                           \<and> contains (lower (resp_text resp)) ''already''
                   then (Continue,
                         results @ [invite_entry idx email first last' role ''ALREADY_EXISTS'' resp],
                         pace cfg (snd res))
                   else if status_code resp = 401
                   then (Break, results @ [unauthorized_entry idx email resp], snd res)
                   else (Continue,
                         results @ [invite_entry idx email first last' role
                                      (''INVITE_ERROR '' @ str_int (status_code resp)) resp],
                         pace cfg (snd res))
               | Inl e \<Rightarrow>
                   (Continue, results @ [network_error_entry idx email e], pace cfg (snd res))))"

text \<open>The \<open>for\<close> loop: \<open>Break\<close> when it was left by the \<open>break\<close> of line 190.\<close>

fun for_rows ::
  "config \<Rightarrow> (nat \<Rightarrow> net_result) \<Rightarrow> (int \<times> row) list \<Rightarrow> outcome list \<Rightarrow> world \<Rightarrow>
   loop_ctl \<times> outcome list \<times> world" where
  "for_rows cfg net [] results w = (Continue, results, w)"
| "for_rows cfg net ((idx, r) # rest) results w =
     (case loop_body cfg net idx r results w of
        (Break, results', w') \<Rightarrow> (Break, results', w')
      | (Continue, results', w') \<Rightarrow> for_rows cfg net rest results' w')"

text \<open>\<open>df.iterrows()\<close> of a frame read by \<open>read_csv\<close>: the rows with their positions from 0.\<close>

definition iterrows :: "row list \<Rightarrow> (int \<times> row) list" where
  "iterrows df = zip (map int [0..<length df]) df"

text \<open>
  The loop on a frame, from \<open>results = []\<close> (line 159) and before any request or sleep;
  \<open>run_bulk_invite\<close> is the list \<open>results\<close> shown after the loop, with the effects of the run.
\<close>

definition run_loop ::
  "config \<Rightarrow> (nat \<Rightarrow> net_result) \<Rightarrow> row list \<Rightarrow> loop_ctl \<times> outcome list \<times> world" where
  "run_loop cfg net df = for_rows cfg net (iterrows df) [] \<lparr>calls = 0, trace = []\<rparr>"

definition run_bulk_invite ::
  "config \<Rightarrow> (nat \<Rightarrow> net_result) \<Rightarrow> row list \<Rightarrow> outcome list \<times> world" where
  "run_bulk_invite cfg net df = snd (run_loop cfg net df)"

section \<open>Notions used to state the properties\<close>

text \<open>\<open>rate_limited x\<close>: the result \<open>x\<close> of a POST is a response with status 429.\<close>

definition rate_limited :: "net_result \<Rightarrow> bool" where
  "rate_limited x = (case x of Response r \<Rightarrow> status_code r = 429 | RequestException e \<Rightarrow> False)"

text \<open>
  \<open>backoff_events rq retry k\<close>: the effects of \<open>k\<close> rate-limited attempts in a row, the
  first made when the retry count is \<open>retry\<close>: each is a POST followed by a sleep of
  \<open>min(2 ** n, 10)\<close> seconds, \<open>n\<close> the retry count after its increment.
\<close>

fun backoff_events :: "request \<Rightarrow> nat \<Rightarrow> nat \<Rightarrow> event list" where
  "backoff_events rq retry 0 = []"
| "backoff_events rq retry (Suc k) =
     Post rq # Sleep (min (2 ^ Suc retry) 10) # backoff_events rq (Suc retry) k"

text \<open>The number of POST requests in a trace, and the milliseconds of pacing in it.\<close>

fun posts_in :: "event list \<Rightarrow> nat" where
  "posts_in [] = 0"
| "posts_in (Post rq # es) = Suc (posts_in es)"
| "posts_in (e # es) = posts_in es"


text \<open>
  The classification table as the specification words it, for comparison with the status
  the loop records: the tags AUTH_ERROR for 401 and INVITE_ERROR:<statusCode> otherwise.
\<close>

definition spec_status_tag :: "int \<Rightarrow> string \<Rightarrow> string" where
  "spec_status_tag code body =
     (if code = 200 \<or> code = 201 then ''INVITED''
      else if (code = 400 \<or> code = 409) \<and> contains (lower body) ''already''
      then ''ALREADY_EXISTS''
      else if code = 401 then ''AUTH_ERROR''
      else ''INVITE_ERROR:'' @ str_int code)"

text \<open>
  The role of the Normalizer as the specification words it, for comparison with
  \<open>norm_role\<close>: read and trimmed like first and last, an empty or absent value giving the
  literal employee.
\<close>

definition spec_role :: "config \<Rightarrow> row \<Rightarrow> string" where
  "spec_role cfg r =
     (let v = (if col_selected (role_col cfg)
               then strip (str_cell (row_get r (role_col cfg) (PyStr []))) else [])
      in if v = [] then ''employee'' else v)"

section \<open>Example inputs\<close>

definition example_cfg :: config where
  "example_cfg =
     \<lparr>api_key = ''key'', account_id = ''acme'', email_col = ''email'', first_col = ''first'',
      last_col = ''(none)'', role_col = ''role'', dry_run = False, throttle_ms = 100\<rparr>"

definition example_dry_cfg :: config where
  "example_dry_cfg = example_cfg\<lparr>dry_run := True\<rparr>"

definition alice :: row where
  "alice = [''email'' \<mapsto> PyStr '' alice@example.com '', ''first'' \<mapsto> PyStr ''Alice'',
            ''role'' \<mapsto> PyStr ''admin'']"

definition bob :: row where
  "bob = [''email'' \<mapsto> PyStr ''bob@example.com'', ''first'' \<mapsto> PyStr ''Bob'',
          ''role'' \<mapsto> PyStr '' '']"

definition blank :: row where
  "blank = [''email'' \<mapsto> PyStr ''   '', ''first'' \<mapsto> PyStr ''Nobody'']"

definition w0 :: world where
  "w0 = \<lparr>calls = 0, trace = []\<rparr>"

definition reply :: "int \<Rightarrow> string \<Rightarrow> net_result" where
  "reply code body = Response \<lparr>status_code = code, resp_text = body\<rparr>"

text \<open>Five rate-limited replies, then 201; always 429; 401 to the third request; a failure.\<close>

definition net_five_429 :: "nat \<Rightarrow> net_result" where
  "net_five_429 k = (if k < 5 then reply 429 ''slow down'' else reply 201 ''created'')"

definition net_always_429 :: "nat \<Rightarrow> net_result" where
  "net_always_429 k = reply 429 ''slow down''"

definition net_third_401 :: "nat \<Rightarrow> net_result" where
  "net_third_401 k = (if k = 2 then reply 401 ''unauthorized'' else reply 201 ''created'')"

definition net_down :: "nat \<Rightarrow> net_result" where
  "net_down k = (if k = 0 then RequestException ''connection refused'' else reply 201 ''created'')"

definition net_500 :: "nat \<Rightarrow> net_result" where
  "net_500 k = reply 500 []"

definition net_401 :: "nat \<Rightarrow> net_result" where
  "net_401 k = reply 401 []"

section \<open>Facts about strings\<close>

lemma starts_with_iff: "starts_with s p \<longleftrightarrow> (\<exists>v. s = p @ v)"
  by (induction s p rule: starts_with.induct) auto

lemma contains_iff: "contains s p \<longleftrightarrow> (\<exists>u v. s = u @ p @ v)"
proof (induction s)
  case Nil
  then show ?case by auto
next
  case (Cons c cs)
  have "(\<exists>u v. c # cs = u @ p @ v) \<longleftrightarrow> (\<exists>v. c # cs = p @ v) \<or> (\<exists>u v. cs = u @ p @ v)"
  proof
    assume "\<exists>u v. c # cs = u @ p @ v"
    then obtain u v where e: "c # cs = u @ p @ v" by blast
    show "(\<exists>v. c # cs = p @ v) \<or> (\<exists>u v. cs = u @ p @ v)"
    proof (cases u)
      case Nil
      with e show ?thesis by auto
    next
      case (Cons a u')
      with e have "cs = u' @ p @ v" by simp
      then show ?thesis by blast
    qed
  next
    assume "(\<exists>v. c # cs = p @ v) \<or> (\<exists>u v. cs = u @ p @ v)"
    then show "\<exists>u v. c # cs = u @ p @ v"
    proof
      assume "\<exists>v. c # cs = p @ v"
      then obtain v where "c # cs = [] @ p @ v" by auto
      then show ?thesis by blast
    next
      assume "\<exists>u v. cs = u @ p @ v"
      then obtain u v where "c # cs = (c # u) @ p @ v" by auto
      then show ?thesis by blast
    qed
  qed
  then show ?case
    using Cons.IH by (simp add: starts_with_iff)
qed

section \<open>Facts about the client\<close>

lemma requests_post_simps:
  "fst (requests_post net rq w) = net (calls w)"
  "calls (snd (requests_post net rq w)) = Suc (calls w)"
  "trace (snd (requests_post net rq w)) = trace w @ [Post rq]"
  by (simp_all add: requests_post_def)

lemma time_sleep_simps:
  "calls (time_sleep n w) = calls w"
  "trace (time_sleep n w) = trace w @ [Sleep n]"
  by (simp_all add: time_sleep_def)

lemma post_loop_exception:
  "net (calls w) = RequestException e \<Longrightarrow>
   post_loop net rq m retry w = (Inl e, snd (requests_post net rq w))"
  by (subst post_loop.simps) (simp add: requests_post_simps Let_def)

lemma post_loop_return:
  "net (calls w) = Response r \<Longrightarrow> \<not> (status_code r = 429 \<and> retry < m) \<Longrightarrow>
   post_loop net rq m retry w = (Inr r, snd (requests_post net rq w))"
  by (subst post_loop.simps) (auto simp: requests_post_simps Let_def)

lemma post_loop_retry:
  "net (calls w) = Response r \<Longrightarrow> status_code r = 429 \<Longrightarrow> retry < m \<Longrightarrow>
   post_loop net rq m retry w =
     post_loop net rq m (retry + 1)
       (time_sleep (min (2 ^ nat (retry + 1)) 10) (snd (requests_post net rq w)))"
  by (subst post_loop.simps) (simp add: requests_post_simps Let_def)

lemma post_loop_immediate:
  "\<not> rate_limited (net (calls w)) \<Longrightarrow>
   post_loop net rq m retry w =
     (case net (calls w) of Response r \<Rightarrow> Inr r | RequestException e \<Rightarrow> Inl e,
      \<lparr>calls = Suc (calls w), trace = trace w @ [Post rq]\<rparr>)"
  by (cases "net (calls w)")
     (simp_all add: post_loop_exception post_loop_return rate_limited_def requests_post_def)

lemma post_loop_calls:
  "calls w < calls (snd (post_loop net rq m retry w)) \<and>
   int (calls (snd (post_loop net rq m retry w))) \<le> int (calls w) + 1 + max 0 (m - retry)"
proof (induction net rq m retry w rule: post_loop.induct)
  case (1 net rq m retry w)
  show ?case
  proof (cases "net (calls w)")
    case (RequestException e)
    then show ?thesis by (simp add: post_loop_exception requests_post_simps)
  next
    case (Response r)
    show ?thesis
    proof (cases "status_code r = 429 \<and> retry < m")
      case False
      with Response show ?thesis by (simp add: post_loop_return requests_post_simps)
    next
      case True
      with Response "1.IH"[of "requests_post net rq w" r] show ?thesis
        by (simp add: post_loop_retry requests_post_simps time_sleep_simps)
    qed
  qed
qed

lemma post_loop_last:
  "fst (post_loop net rq m retry w) =
     (case net (calls (snd (post_loop net rq m retry w)) - 1) of
        Response r \<Rightarrow> Inr r | RequestException e \<Rightarrow> Inl e)"
proof (induction net rq m retry w rule: post_loop.induct)
  case (1 net rq m retry w)
  show ?case
  proof (cases "net (calls w)")
    case (RequestException e)
    then show ?thesis by (simp add: post_loop_exception requests_post_simps)
  next
    case (Response r)
    show ?thesis
    proof (cases "status_code r = 429 \<and> retry < m")
      case False
      with Response show ?thesis by (simp add: post_loop_return requests_post_simps)
    next
      case True
      with Response "1.IH"[of "requests_post net rq w" r] show ?thesis
        by (simp add: post_loop_retry requests_post_simps time_sleep_simps)
    qed
  qed
qed

lemma post_loop_trace:
  "0 \<le> retry \<Longrightarrow>
   trace (snd (post_loop net rq m retry w)) =
     trace w @ backoff_events rq (nat retry) (calls (snd (post_loop net rq m retry w)) - Suc (calls w))
       @ [Post rq]"
proof (induction net rq m retry w rule: post_loop.induct)
  case (1 net rq m retry w)
  show ?case
  proof (cases "net (calls w)")
    case (RequestException e)
    then show ?thesis by (simp add: post_loop_exception requests_post_simps)
  next
    case (Response r)
    show ?thesis
    proof (cases "status_code r = 429 \<and> retry < m")
      case False
      with Response show ?thesis by (simp add: post_loop_return requests_post_simps)
    next
      case True
      let ?w2 = "time_sleep (min (2 ^ nat (retry + 1)) 10) (snd (requests_post net rq w))"
      let ?w' = "snd (post_loop net rq m (retry + 1) ?w2)"
      have eq: "post_loop net rq m retry w = post_loop net rq m (retry + 1) ?w2"
        using Response True by (simp add: post_loop_retry)
      have c2: "calls ?w2 = Suc (calls w)"
        by (simp add: requests_post_simps time_sleep_simps)
      have lt: "calls ?w2 < calls ?w'"
        using post_loop_calls[of ?w2 net rq m "retry + 1"] by simp
      then obtain k where k: "calls ?w' - Suc (calls w) = Suc k" "calls ?w' - Suc (calls ?w2) = k"
        using c2 by (metis Suc_diff_Suc)
      have n: "nat (retry + 1) = Suc (nat retry)"
        using "1.prems" by simp
      have "trace ?w' =
            trace ?w2 @ backoff_events rq (nat (retry + 1)) (calls ?w' - Suc (calls ?w2)) @ [Post rq]"
        using "1.IH"[of "requests_post net rq w" r] Response True "1.prems"
        by (simp add: requests_post_simps)
      then have IH': "trace ?w' = trace ?w2 @ backoff_events rq (nat (retry + 1)) k @ [Post rq]"
        by (simp only: k)
      have t2: "trace ?w2 = trace w @ [Post rq, Sleep (min (2 ^ nat (retry + 1)) 10)]"
        by (simp add: requests_post_simps time_sleep_simps)
      have b: "backoff_events rq (nat retry) (calls ?w' - Suc (calls w)) =
               [Post rq, Sleep (min (2 ^ nat (retry + 1)) 10)] @ backoff_events rq (nat (retry + 1)) k"
        unfolding k(1) by (simp add: n)
      show ?thesis
        unfolding eq b IH' t2 by simp
    qed
  qed
qed

lemma post_loop_unroll:
  "0 \<le> retry \<Longrightarrow> retry + int k \<le> m \<Longrightarrow>
   list_all rate_limited (map net [calls w..<calls w + k]) \<Longrightarrow>
   post_loop net rq m retry w =
     post_loop net rq m (retry + int k)
       \<lparr>calls = calls w + k, trace = trace w @ backoff_events rq (nat retry) k\<rparr>"
proof (induction k arbitrary: retry w)
  case 0
  then show ?case by (cases w) simp
next
  case (Suc k)
  let ?w2 = "time_sleep (min (2 ^ nat (retry + 1)) 10) (snd (requests_post net rq w))"
  have "[calls w..<calls w + Suc k] = calls w # [Suc (calls w)..<Suc (calls w) + k]"
    by (simp add: upt_conv_Cons del: upt_Suc)
  then have rl: "rate_limited (net (calls w))"
    and rest: "list_all rate_limited (map net [Suc (calls w)..<Suc (calls w) + k])"
    using Suc.prems(3) by simp_all
  from rl obtain r where r: "net (calls w) = Response r" "status_code r = 429"
    by (auto simp: rate_limited_def split: net_result.splits)
  have eq: "post_loop net rq m retry w = post_loop net rq m (retry + 1) ?w2"
    using r Suc.prems by (simp add: post_loop_retry)
  have c2: "calls ?w2 = Suc (calls w)" and t2: "trace ?w2 = trace w @ [Post rq, Sleep (min (2 ^ nat (retry + 1)) 10)]"
    by (simp_all add: requests_post_simps time_sleep_simps)
  have n: "nat (retry + 1) = Suc (nat retry)"
    using Suc.prems by simp
  have step: "post_loop net rq m (retry + 1) ?w2 =
        post_loop net rq m (retry + 1 + int k)
          \<lparr>calls = calls ?w2 + k, trace = trace ?w2 @ backoff_events rq (nat (retry + 1)) k\<rparr>"
  proof (rule Suc.IH)
    show "0 \<le> retry + 1" using Suc.prems by simp
    show "retry + 1 + int k \<le> m" using Suc.prems by simp
    show "list_all rate_limited (map net [calls ?w2..<calls ?w2 + k])"
      unfolding c2 by (rule rest)
  qed
  have e1: "retry + 1 + int k = retry + int (Suc k)" and e2: "Suc (calls w) + k = calls w + Suc k"
    by simp_all
  show ?case
    unfolding eq step c2 t2 e1 e2 by (simp add: n)
qed

lemma posts_in_append: "posts_in (xs @ ys) = posts_in xs + posts_in ys"
  by (induction xs rule: posts_in.induct) simp_all

lemma posts_in_backoff: "posts_in (backoff_events rq retry k) = k"
  by (induction k arbitrary: retry) simp_all




lemma backoff_events_posts: "Post q \<in> set (backoff_events rq retry k) \<Longrightarrow> q = rq"
  by (induction k arbitrary: retry) auto

lemma post_invite_unfold:
  "post_invite net key acct email first last' role m w =
     (case fst (post_loop net (invite_request key acct (mk_payload email first last' role)) m 0 w) of
        Inl e \<Rightarrow> Inl e | Inr r \<Rightarrow> Inr (r, mk_payload email first last' role),
      snd (post_loop net (invite_request key acct (mk_payload email first last' role)) m 0 w))"
  by (simp add: post_invite_def Let_def split: sum.splits)

lemma or_default_nonempty: "or_default role \<noteq> []"
  by (cases role) auto

section \<open>Claims about the invitation client\<close>

text \<open>
  C9. The payload that \<open>post_invite\<close> builds never has an empty role: a missing or empty
  role becomes the literal employee. This is the payload of every POST the call issues and
  of the pair it returns.
\<close>

theorem payload_role_never_empty:
  "pl_role (mk_payload email first last' role) \<noteq> []
   \<and> (role = None \<or> role = Some [] \<longrightarrow> pl_role (mk_payload email first last' role) = ''employee'')
   \<and> (\<forall>q. Post q \<in> set (drop (length (trace w))
                            (trace (snd (post_invite net key acct email first last' role m w))))
          \<longrightarrow> rq_json q = mk_payload email first last' role \<and> pl_role (rq_json q) \<noteq> [])
   \<and> (\<forall>r pl. fst (post_invite net key acct email first last' role m w) = Inr (r, pl)
          \<longrightarrow> pl = mk_payload email first last' role \<and> pl_role pl \<noteq> [])"
proof -
  let ?pl = "mk_payload email first last' role"
  let ?rq = "invite_request key acct ?pl"
  have ne: "pl_role ?pl \<noteq> []"
    by (simp add: mk_payload_def or_default_nonempty)
  have emp: "role = None \<or> role = Some [] \<longrightarrow> pl_role ?pl = ''employee''"
    by (auto simp: mk_payload_def)
  have tr: "drop (length (trace w)) (trace (snd (post_invite net key acct email first last' role m w)))
            = backoff_events ?rq 0 (calls (snd (post_loop net ?rq m 0 w)) - Suc (calls w)) @ [Post ?rq]"
    using post_loop_trace[of 0 net ?rq m w] by (simp add: post_invite_unfold)
  have posts: "\<forall>q. Post q \<in> set (drop (length (trace w))
                            (trace (snd (post_invite net key acct email first last' role m w))))
          \<longrightarrow> rq_json q = ?pl \<and> pl_role (rq_json q) \<noteq> []"
    unfolding tr using ne by (auto dest: backoff_events_posts simp: invite_request_def)
  have ret: "\<forall>r pl. fst (post_invite net key acct email first last' role m w) = Inr (r, pl)
          \<longrightarrow> pl = ?pl \<and> pl_role pl \<noteq> []"
    using ne by (auto simp: post_invite_unfold split: sum.splits)
  show ?thesis
    using ne emp posts ret by blast
qed

theorem payload_role_never_empty_witness:
  "pl_role (mk_payload ''bob@example.com'' (Some ''Bob'') None (Some [])) = ''employee''
   \<and> fst (post_invite net_always_429 ''key'' ''acme'' ''bob@example.com'' (Some ''Bob'') None (Some []) 1 w0)
       = Inr (\<lparr>status_code = 429, resp_text = ''slow down''\<rparr>,
              \<lparr>pl_email = ''bob@example.com'', pl_role = ''employee'', pl_firstName = Some ''Bob'',
               pl_lastName = None\<rparr>)"
proof -
  have v: "fst (post_invite net_always_429 ''key'' ''acme'' ''bob@example.com'' (Some ''Bob'') None (Some []) 1 w0)
       = Inr (\<lparr>status_code = 429, resp_text = ''slow down''\<rparr>,
              mk_payload ''bob@example.com'' (Some ''Bob'') None (Some []))"
    by code_simp
  have p: "mk_payload ''bob@example.com'' (Some ''Bob'') None (Some []) =
           \<lparr>pl_email = ''bob@example.com'', pl_role = pl_role (mk_payload ''bob@example.com'' (Some ''Bob'') None (Some [])),
            pl_firstName = Some ''Bob'', pl_lastName = None\<rparr>"
    by (simp add: mk_payload_def)
  show ?thesis
    using payload_role_never_empty[of "''bob@example.com''" "Some ''Bob''" None "Some []" w0
            net_always_429 "''key''" "''acme''" 1] v p
    by simp
qed

text \<open>
  C10. For every bound \<open>max_retries \<ge> 0\<close> and every sequence of results of the remote
  side, \<open>post_invite\<close> returns: it issues at least one and at most \<open>max_retries + 1\<close> POST
  requests, and what it returns is the result of the last of them, a response coming with
  the payload used (a \<open>RequestException\<close> being raised to the caller).
\<close>

theorem post_invite_terminates:
  assumes "0 \<le> max_retries"
  shows "\<exists>res w'. post_invite net key acct email first last' role max_retries w = (res, w')
     \<and> calls w < calls w' \<and> calls w' \<le> calls w + nat max_retries + 1
     \<and> posts_in (trace w') = posts_in (trace w) + (calls w' - calls w)
     \<and> res = (case net (calls w' - 1) of
                Response r \<Rightarrow> Inr (r, mk_payload email first last' role)
              | RequestException e \<Rightarrow> Inl e)"
proof -
  let ?pl = "mk_payload email first last' role"
  let ?rq = "invite_request key acct ?pl"
  let ?out = "post_loop net ?rq max_retries 0 w"
  let ?w' = "snd ?out"
  have c: "calls w < calls ?w'" "int (calls ?w') \<le> int (calls w) + 1 + max 0 (max_retries - 0)"
    using post_loop_calls[of w net ?rq max_retries 0] by simp_all
  then have c2: "calls ?w' \<le> calls w + nat max_retries + 1"
    using assms by linarith
  have t: "trace ?w' = trace w @ backoff_events ?rq 0 (calls ?w' - Suc (calls w)) @ [Post ?rq]"
    using post_loop_trace[of 0 net ?rq max_retries w] by simp
  have p: "posts_in (trace ?w') = posts_in (trace w) + (calls ?w' - calls w)"
    unfolding t using c(1) by (simp add: posts_in_append posts_in_backoff)
  have l: "fst ?out = (case net (calls ?w' - 1) of Response r \<Rightarrow> Inr r | RequestException e \<Rightarrow> Inl e)"
    by (rule post_loop_last)
  have r: "fst (post_invite net key acct email first last' role max_retries w) =
           (case net (calls ?w' - 1) of Response r \<Rightarrow> Inr (r, ?pl) | RequestException e \<Rightarrow> Inl e)"
    unfolding post_invite_unfold fst_conv l by (simp split: net_result.splits)
  have s: "snd (post_invite net key acct email first last' role max_retries w) = ?w'"
    by (simp add: post_invite_unfold)
  show ?thesis
    using c(1) c2 p r s by (metis prod.collapse)
qed

theorem post_invite_terminates_witness:
  "(0::int) \<le> 2
   \<and> (\<exists>res w'. post_invite net_always_429 ''key'' ''acme'' ''a@b.c'' None None None 2 w0 = (res, w')
        \<and> calls w0 < calls w' \<and> calls w' \<le> calls w0 + nat 2 + 1
        \<and> posts_in (trace w') = posts_in (trace w0) + (calls w' - calls w0)
        \<and> res = (case net_always_429 (calls w' - 1) of
                   Response r \<Rightarrow> Inr (r, mk_payload ''a@b.c'' None None None)
                 | RequestException e \<Rightarrow> Inl e))
   \<and> calls (snd (post_invite net_always_429 ''key'' ''acme'' ''a@b.c'' None None None 2 w0)) = 3"
proof -
  have h: "(0::int) \<le> 2" by simp
  have v: "calls (snd (post_invite net_always_429 ''key'' ''acme'' ''a@b.c'' None None None 2 w0)) = 3"
    by code_simp
  show ?thesis
    using h v post_invite_terminates[OF h, of net_always_429 "''key''" "''acme''" "''a@b.c''" None None None w0]
    by blast
qed

lemma post_invite_immediate:
  "\<not> rate_limited (net (calls w)) \<Longrightarrow>
   post_invite net key acct email first last' role m w =
     (case net (calls w) of
        Response r \<Rightarrow> Inr (r, mk_payload email first last' role)
      | RequestException e \<Rightarrow> Inl e,
      \<lparr>calls = Suc (calls w),
       trace = trace w @ [Post (invite_request key acct (mk_payload email first last' role))]\<rparr>)"
  by (simp add: post_invite_unfold post_loop_immediate split: net_result.splits)

lemma post_invite_five_429:
  assumes "list_all rate_limited (map net [calls w..<calls w + 5])"
    and "net (calls w + 5) = Response r" and "status_code r = 201"
  shows "post_invite net key acct email first last' role 5 w =
     (Inr (r, mk_payload email first last' role),
      \<lparr>calls = calls w + 6,
       trace = trace w
         @ backoff_events (invite_request key acct (mk_payload email first last' role)) 0 5
         @ [Post (invite_request key acct (mk_payload email first last' role))]\<rparr>)"
proof -
  let ?rq = "invite_request key acct (mk_payload email first last' role)"
  let ?w5 = "\<lparr>calls = calls w + 5, trace = trace w @ backoff_events ?rq (nat 0) 5\<rparr>"
  have u: "post_loop net ?rq 5 0 w = post_loop net ?rq 5 (0 + int 5) ?w5"
    by (rule post_loop_unroll) (simp_all add: assms(1))
  have "net (calls ?w5) = Response r"
    using assms(2) by simp
  then have "post_loop net ?rq 5 (0 + int 5) ?w5 = (Inr r, snd (requests_post net ?rq ?w5))"
    using assms(3) by (intro post_loop_return) simp_all
  then show ?thesis
    by (simp add: post_invite_unfold u requests_post_def)
qed

lemma backoff_five:
  "backoff_events rq 0 5 =
     [Post rq, Sleep 2, Post rq, Sleep 4, Post rq, Sleep 8, Post rq, Sleep 10, Post rq, Sleep 10]"
  by (simp add: numeral_eq_Suc)

section \<open>Facts about one iteration and about the loop\<close>

lemma loop_body_skipped:
  "norm_email cfg r = [] \<Longrightarrow>
   loop_body cfg net idx r results w = (Continue, results @ [skipped_entry idx], w)"
  by (simp add: loop_body_def)

lemma loop_body_dry_run:
  "norm_email cfg r \<noteq> [] \<Longrightarrow> dry_run cfg \<Longrightarrow>
   loop_body cfg net idx r results w =
     (Continue,
      results @ [dry_run_entry idx (norm_email cfg r) (norm_first cfg r) (norm_last cfg r)
                   (norm_role cfg r)], w)"
  by (simp add: loop_body_def Let_def)

lemma loop_body_response:
  assumes "norm_email cfg r \<noteq> []" and "\<not> dry_run cfg"
    and "fst (invite_call cfg net r w) = Inr (resp, pl)"
  shows "loop_body cfg net idx r results w =
     (if status_code resp = 200 \<or> status_code resp = 201
      then (Continue,
            results @ [invite_entry idx (norm_email cfg r) (norm_first cfg r) (norm_last cfg r)
                         (norm_role cfg r) ''INVITED'' resp],
            pace cfg (snd (invite_call cfg net r w)))
      else if (status_code resp = 400 \<or> status_code resp = 409)
              \<and> contains (lower (resp_text resp)) ''already''
      then (Continue,
            results @ [invite_entry idx (norm_email cfg r) (norm_first cfg r) (norm_last cfg r)
                         (norm_role cfg r) ''ALREADY_EXISTS'' resp],
            pace cfg (snd (invite_call cfg net r w)))
      else if status_code resp = 401
      then (Break, results @ [unauthorized_entry idx (norm_email cfg r) resp],
            snd (invite_call cfg net r w))
      else (Continue,
            results @ [invite_entry idx (norm_email cfg r) (norm_first cfg r) (norm_last cfg r)
                         (norm_role cfg r) (''INVITE_ERROR '' @ str_int (status_code resp)) resp],
            pace cfg (snd (invite_call cfg net r w))))"
  using assms by (simp add: loop_body_def Let_def)

lemma loop_body_exception:
  assumes "norm_email cfg r \<noteq> []" and "\<not> dry_run cfg"
    and "fst (invite_call cfg net r w) = Inl e"
  shows "loop_body cfg net idx r results w =
     (Continue, results @ [network_error_entry idx (norm_email cfg r) e],
      pace cfg (snd (invite_call cfg net r w)))"
  using assms by (simp add: loop_body_def Let_def)

lemma loop_body_appends_one:
  "\<exists>e. fst (snd (loop_body cfg net idx r results w)) = results @ [e]"
proof (cases "norm_email cfg r = []")
  case True
  then show ?thesis by (simp add: loop_body_skipped)
next
  case ne: False
  show ?thesis
  proof (cases "dry_run cfg")
    case True
    with ne show ?thesis by (simp add: loop_body_dry_run)
  next
    case False
    show ?thesis
    proof (cases "fst (invite_call cfg net r w)")
      case (Inl e)
      with ne False show ?thesis by (simp add: loop_body_exception)
    next
      case (Inr p)
      then obtain resp pl where "fst (invite_call cfg net r w) = Inr (resp, pl)"
        by (cases p) simp
      with ne False show ?thesis by (simp add: loop_body_response)
    qed
  qed
qed

lemma for_rows_append:
  "for_rows cfg net (xs @ ys) results w =
     (case for_rows cfg net xs results w of
        (Break, rs, w') \<Rightarrow> (Break, rs, w')
      | (Continue, rs, w') \<Rightarrow> for_rows cfg net ys rs w')"
proof (induction xs arbitrary: results w)
  case Nil
  then show ?case by simp
next
  case (Cons x xs)
  obtain idx r where x: "x = (idx, r)" by (cases x)
  obtain c rs w' where b: "loop_body cfg net idx r results w = (c, rs, w')"
    by (cases "loop_body cfg net idx r results w")
  show ?case
    by (cases c) (simp_all add: x b Cons.IH)
qed

lemma for_rows_length:
  "for_rows cfg net xs results w = (Continue, rs, w') \<Longrightarrow>
   length rs = length results + length xs"
proof (induction xs arbitrary: results w)
  case Nil
  then show ?case by simp
next
  case (Cons x xs)
  obtain idx r where x: "x = (idx, r)" by (cases x)
  obtain c rs1 w1 where b: "loop_body cfg net idx r results w = (c, rs1, w1)"
    by (cases "loop_body cfg net idx r results w")
  obtain e where e: "rs1 = results @ [e]"
    using loop_body_appends_one[of cfg net idx r results w] b by auto
  show ?case
  proof (cases c)
    case Break
    with Cons.prems x b show ?thesis by simp
  next
    case Continue
    with Cons.prems x b have "for_rows cfg net xs rs1 w1 = (Continue, rs, w')" by simp
    from Cons.IH[OF this] e show ?thesis by simp
  qed
qed

lemma iterrows_append:
  "iterrows (pre @ r # post) =
     iterrows pre @ (int (length pre), r)
       # zip (map int [Suc (length pre)..<Suc (length pre + length post)]) post"
proof -
  have "[0..<length pre + Suc (length post)] =
        [0..<length pre] @ length pre # [Suc (length pre)..<Suc (length pre + length post)]"
    by (metis add_Suc_right le_add1 less_add_Suc1 upt_add_eq_append upt_conv_Cons zero_le)
  then show ?thesis
    by (simp add: iterrows_def)
qed

lemma strip_empty_iff: "strip s = [] \<longleftrightarrow> list_all isspace s"
proof -
  have "strip s = [] \<longleftrightarrow> (\<forall>x \<in> set (dropWhile isspace s). isspace x)"
    by (simp add: strip_def dropWhile_eq_Nil_conv)
  also have "\<dots> \<longleftrightarrow> dropWhile isspace s = []"
  proof
    assume a: "\<forall>x \<in> set (dropWhile isspace s). isspace x"
    show "dropWhile isspace s = []"
    proof (rule ccontr)
      assume n: "dropWhile isspace s \<noteq> []"
      then have "\<not> isspace (hd (dropWhile isspace s))" by (rule hd_dropWhile)
      moreover have "hd (dropWhile isspace s) \<in> set (dropWhile isspace s)" using n by simp
      ultimately show False using a by blast
    qed
  next
    assume e: "dropWhile isspace s = []"
    show "\<forall>x \<in> set (dropWhile isspace s). isspace x"
      unfolding e by simp
  qed
  also have "\<dots> \<longleftrightarrow> list_all isspace s"
    by (simp add: dropWhile_eq_Nil_conv list_all_iff)
  finally show ?thesis .
qed

section \<open>Claims about the backoff and the classification\<close>

text \<open>
  C3. With the default \<open>max_retries = 5\<close>, when the next five results are 429 responses
  and the sixth is a 201, \<open>post_invite\<close> issues exactly six POSTs, sleeps 2, 4, 8, 10 and
  10 seconds between them (\<open>min(2 ** retry, 10)\<close> for the retry counts 1 to 5) and returns
  the 201 with the payload; the loop then appends one outcome for the row, whose status is
  INVITED, and goes on. A result that is not a 429 response is returned after one POST,
  without any sleep.
\<close>

theorem backoff_five_429_then_201:
  fixes net net2 :: "nat \<Rightarrow> net_result"
    and key acct email :: string
    and first last' role :: "string option"
  defines "rq \<equiv> invite_request key acct (mk_payload email first last' role)"
  shows
    "(list_all rate_limited (map net [calls w..<calls w + 5]) \<and> net (calls w + 5) = Response r
        \<and> status_code r = 201 \<longrightarrow>
        post_invite net key acct email first last' role 5 w =
          (Inr (r, mk_payload email first last' role),
           \<lparr>calls = calls w + 6,
            trace = trace w @ [Post rq, Sleep 2, Post rq, Sleep 4, Post rq, Sleep 8, Post rq,
                               Sleep 10, Post rq, Sleep 10, Post rq]\<rparr>))
     \<and> (norm_email cfg rw \<noteq> [] \<and> \<not> dry_run cfg
        \<and> list_all rate_limited (map net [calls w..<calls w + 5]) \<and> net (calls w + 5) = Response r
        \<and> status_code r = 201 \<longrightarrow>
        fst (loop_body cfg net idx rw results w) = Continue
        \<and> fst (snd (loop_body cfg net idx rw results w)) =
            results @ [invite_entry idx (norm_email cfg rw) (norm_first cfg rw) (norm_last cfg rw)
                         (norm_role cfg rw) ''INVITED'' r]
        \<and> map o_status (fst (snd (loop_body cfg net idx rw results w))) =
            map o_status results @ [''INVITED''])
     \<and> map (\<lambda>retry. min (2 ^ retry) 10) [1..<6] = [2, 4, 8, 10, 10 :: int]
     \<and> (\<not> rate_limited (net2 (calls w2)) \<longrightarrow>
        post_invite net2 key acct email first last' role m w2 =
          (case net2 (calls w2) of
             Response r2 \<Rightarrow> Inr (r2, mk_payload email first last' role)
           | RequestException e \<Rightarrow> Inl e,
           \<lparr>calls = Suc (calls w2), trace = trace w2 @ [Post rq]\<rparr>))"
proof -
  have a: "list_all rate_limited (map net [calls w..<calls w + 5]) \<and> net (calls w + 5) = Response r
        \<and> status_code r = 201 \<longrightarrow>
        post_invite net key acct email first last' role 5 w =
          (Inr (r, mk_payload email first last' role),
           \<lparr>calls = calls w + 6,
            trace = trace w @ [Post rq, Sleep 2, Post rq, Sleep 4, Post rq, Sleep 8, Post rq,
                               Sleep 10, Post rq, Sleep 10, Post rq]\<rparr>)"
    unfolding rq_def by (simp add: post_invite_five_429 backoff_five)
  have b: "norm_email cfg rw \<noteq> [] \<and> \<not> dry_run cfg
        \<and> list_all rate_limited (map net [calls w..<calls w + 5]) \<and> net (calls w + 5) = Response r
        \<and> status_code r = 201 \<longrightarrow>
        fst (loop_body cfg net idx rw results w) = Continue
        \<and> fst (snd (loop_body cfg net idx rw results w)) =
            results @ [invite_entry idx (norm_email cfg rw) (norm_first cfg rw) (norm_last cfg rw)
                         (norm_role cfg rw) ''INVITED'' r]
        \<and> map o_status (fst (snd (loop_body cfg net idx rw results w))) =
            map o_status results @ [''INVITED'']"
  proof (intro impI, elim conjE)
    assume h: "norm_email cfg rw \<noteq> []" "\<not> dry_run cfg"
      "list_all rate_limited (map net [calls w..<calls w + 5])" "net (calls w + 5) = Response r"
      "status_code r = 201"
    have "fst (invite_call cfg net rw w) =
          Inr (r, mk_payload (norm_email cfg rw) (or_none (norm_first cfg rw))
                    (or_none (norm_last cfg rw)) (Some (or_default (Some (norm_role cfg rw)))))"
      unfolding invite_call_def by (simp add: post_invite_five_429[OF h(3,4,5)])
    from loop_body_response[OF h(1,2) this, of idx results] h(5)
    have body: "loop_body cfg net idx rw results w =
        (Continue,
         results @ [invite_entry idx (norm_email cfg rw) (norm_first cfg rw) (norm_last cfg rw)
                      (norm_role cfg rw) ''INVITED'' r],
         pace cfg (snd (invite_call cfg net rw w)))"
      by simp
    have st: "o_status (invite_entry idx (norm_email cfg rw) (norm_first cfg rw) (norm_last cfg rw)
                          (norm_role cfg rw) ''INVITED'' r) = ''INVITED''"
      by (simp add: invite_entry_def entry_def)
    show "fst (loop_body cfg net idx rw results w) = Continue
        \<and> fst (snd (loop_body cfg net idx rw results w)) =
            results @ [invite_entry idx (norm_email cfg rw) (norm_first cfg rw) (norm_last cfg rw)
                         (norm_role cfg rw) ''INVITED'' r]
        \<and> map o_status (fst (snd (loop_body cfg net idx rw results w))) =
            map o_status results @ [''INVITED'']"
      unfolding body by (simp add: st)
  qed
  have c: "map (\<lambda>retry. min (2 ^ retry) 10) [1..<6] = [2, 4, 8, 10, 10 :: int]"
    by (simp add: upt_rec)
  have d: "\<not> rate_limited (net2 (calls w2)) \<longrightarrow>
        post_invite net2 key acct email first last' role m w2 =
          (case net2 (calls w2) of
             Response r2 \<Rightarrow> Inr (r2, mk_payload email first last' role)
           | RequestException e \<Rightarrow> Inl e,
           \<lparr>calls = Suc (calls w2), trace = trace w2 @ [Post rq]\<rparr>)"
    unfolding rq_def by (simp add: post_invite_immediate)
  show ?thesis
    using a b c d by blast
qed

theorem backoff_five_429_then_201_witness:
  "list_all rate_limited (map net_five_429 [calls w0..<calls w0 + 5])
   \<and> net_five_429 (calls w0 + 5) = Response \<lparr>status_code = 201, resp_text = ''created''\<rparr>
   \<and> norm_email example_cfg alice \<noteq> [] \<and> \<not> dry_run example_cfg
   \<and> \<not> rate_limited (net_500 (calls w0))
   \<and> snd (post_invite net_five_429 ''key'' ''acme'' ''a@b.c'' None None None 5 w0) =
       \<lparr>calls = calls w0 + 6,
        trace = trace w0 @
          [Post (invite_request ''key'' ''acme'' (mk_payload ''a@b.c'' None None None)), Sleep 2,
           Post (invite_request ''key'' ''acme'' (mk_payload ''a@b.c'' None None None)), Sleep 4,
           Post (invite_request ''key'' ''acme'' (mk_payload ''a@b.c'' None None None)), Sleep 8,
           Post (invite_request ''key'' ''acme'' (mk_payload ''a@b.c'' None None None)), Sleep 10,
           Post (invite_request ''key'' ''acme'' (mk_payload ''a@b.c'' None None None)), Sleep 10,
           Post (invite_request ''key'' ''acme'' (mk_payload ''a@b.c'' None None None))]\<rparr>
   \<and> fst (snd (loop_body example_cfg net_five_429 0 alice [] w0)) =
       [invite_entry 0 (norm_email example_cfg alice) (norm_first example_cfg alice)
          (norm_last example_cfg alice) (norm_role example_cfg alice) ''INVITED''
          \<lparr>status_code = 201, resp_text = ''created''\<rparr>]
   \<and> map o_status (fst (snd (loop_body example_cfg net_five_429 0 alice [] w0))) = [''INVITED'']
   \<and> snd (post_invite net_500 ''key'' ''acme'' ''a@b.c'' None None None 5 w0) =
       \<lparr>calls = Suc (calls w0),
        trace = trace w0 @ [Post (invite_request ''key'' ''acme'' (mk_payload ''a@b.c'' None None None))]\<rparr>"
proof -
  have h1: "list_all rate_limited (map net_five_429 [calls w0..<calls w0 + 5])"
    by code_simp
  have h2: "net_five_429 (calls w0 + 5) = Response \<lparr>status_code = 201, resp_text = ''created''\<rparr>"
    by code_simp
  have h3: "status_code \<lparr>status_code = 201, resp_text = ''created''\<rparr> = 201"
    by simp
  have h4: "norm_email example_cfg alice \<noteq> []"
    by code_simp
  have h5: "\<not> dry_run example_cfg"
    by code_simp
  have h6: "\<not> rate_limited (net_500 (calls w0))"
    by code_simp
  note t = backoff_five_429_then_201[where net = net_five_429 and w = w0
      and r = "\<lparr>status_code = 201, resp_text = ''created''\<rparr>" and key = "''key''"
      and acct = "''acme''" and email = "''a@b.c''" and first = None and last' = None
      and role = None and cfg = example_cfg and rw = alice and idx = 0 and results = "[]"
      and ?net2.0 = net_500 and ?w2.0 = w0 and m = 5]
  have a: "post_invite net_five_429 ''key'' ''acme'' ''a@b.c'' None None None 5 w0 =
      (Inr (\<lparr>status_code = 201, resp_text = ''created''\<rparr>, mk_payload ''a@b.c'' None None None),
       \<lparr>calls = calls w0 + 6,
        trace = trace w0 @
          [Post (invite_request ''key'' ''acme'' (mk_payload ''a@b.c'' None None None)), Sleep 2,
           Post (invite_request ''key'' ''acme'' (mk_payload ''a@b.c'' None None None)), Sleep 4,
           Post (invite_request ''key'' ''acme'' (mk_payload ''a@b.c'' None None None)), Sleep 8,
           Post (invite_request ''key'' ''acme'' (mk_payload ''a@b.c'' None None None)), Sleep 10,
           Post (invite_request ''key'' ''acme'' (mk_payload ''a@b.c'' None None None)), Sleep 10,
           Post (invite_request ''key'' ''acme'' (mk_payload ''a@b.c'' None None None))]\<rparr>)"
    using t h1 h2 h3 by blast
  have bc: "fst (loop_body example_cfg net_five_429 0 alice [] w0) = Continue
      \<and> fst (snd (loop_body example_cfg net_five_429 0 alice [] w0)) =
       [] @ [invite_entry 0 (norm_email example_cfg alice) (norm_first example_cfg alice)
          (norm_last example_cfg alice) (norm_role example_cfg alice) ''INVITED''
          \<lparr>status_code = 201, resp_text = ''created''\<rparr>]
      \<and> map o_status (fst (snd (loop_body example_cfg net_five_429 0 alice [] w0))) =
       map o_status ([] :: outcome list) @ [''INVITED'']"
    by (rule t[THEN conjunct2, THEN conjunct1, THEN mp]) (intro conjI h1 h2 h3 h4 h5)
  note b = bc[THEN conjunct2, THEN conjunct1] and c = bc[THEN conjunct2, THEN conjunct2]
  have d: "post_invite net_500 ''key'' ''acme'' ''a@b.c'' None None None 5 w0 =
      (case net_500 (calls w0) of
         Response r2 \<Rightarrow> Inr (r2, mk_payload ''a@b.c'' None None None)
       | RequestException e \<Rightarrow> Inl e,
       \<lparr>calls = Suc (calls w0),
        trace = trace w0 @ [Post (invite_request ''key'' ''acme'' (mk_payload ''a@b.c'' None None None))]\<rparr>)"
    using t h6 by blast
  have a': "snd (post_invite net_five_429 ''key'' ''acme'' ''a@b.c'' None None None 5 w0) =
       \<lparr>calls = calls w0 + 6,
        trace = trace w0 @
          [Post (invite_request ''key'' ''acme'' (mk_payload ''a@b.c'' None None None)), Sleep 2,
           Post (invite_request ''key'' ''acme'' (mk_payload ''a@b.c'' None None None)), Sleep 4,
           Post (invite_request ''key'' ''acme'' (mk_payload ''a@b.c'' None None None)), Sleep 8,
           Post (invite_request ''key'' ''acme'' (mk_payload ''a@b.c'' None None None)), Sleep 10,
           Post (invite_request ''key'' ''acme'' (mk_payload ''a@b.c'' None None None)), Sleep 10,
           Post (invite_request ''key'' ''acme'' (mk_payload ''a@b.c'' None None None))]\<rparr>"
    unfolding a by simp
  have b': "fst (snd (loop_body example_cfg net_five_429 0 alice [] w0)) =
       [invite_entry 0 (norm_email example_cfg alice) (norm_first example_cfg alice)
          (norm_last example_cfg alice) (norm_role example_cfg alice) ''INVITED''
          \<lparr>status_code = 201, resp_text = ''created''\<rparr>]"
    using b by (simp only: append_Nil)
  have c': "map o_status (fst (snd (loop_body example_cfg net_five_429 0 alice [] w0))) = [''INVITED'']"
    using c by (simp only: list.map append_Nil)
  have d': "snd (post_invite net_500 ''key'' ''acme'' ''a@b.c'' None None None 5 w0) =
       \<lparr>calls = Suc (calls w0),
        trace = trace w0 @ [Post (invite_request ''key'' ''acme'' (mk_payload ''a@b.c'' None None None))]\<rparr>"
    unfolding d by simp
  show ?thesis
    using h1 h2 h4 h5 h6 a' b' c' d' by blast
qed

text \<open>
  C1 (as amended). After a real invite call that returned a response, the status recorded
  for the row is INVITED for 200 and 201, ALREADY_EXISTS for 400 and 409 when the lowered
  body contains already, the text INVITE_ERROR 401 for 401, and INVITE_ERROR followed by a
  space and the status code for every other response. It is the tag of the specification's
  table exactly in the first two cases.
\<close>

theorem status_tag_of_response:
  assumes "norm_email cfg r \<noteq> []" and "\<not> dry_run cfg"
    and "fst (invite_call cfg net r w) = Inr (resp, pl)"
  shows "\<exists>e. fst (snd (loop_body cfg net idx r results w)) = results @ [e]
     \<and> o_status e =
         (if status_code resp = 200 \<or> status_code resp = 201 then ''INVITED''
          else if (status_code resp = 400 \<or> status_code resp = 409)
                  \<and> contains (lower (resp_text resp)) ''already''
          then ''ALREADY_EXISTS''
          else if status_code resp = 401 then ''INVITE_ERROR 401''
          else ''INVITE_ERROR '' @ str_int (status_code resp))
     \<and> ((o_status e = spec_status_tag (status_code resp) (resp_text resp)) =
          (status_code resp = 200 \<or> status_code resp = 201
           \<or> (status_code resp = 400 \<or> status_code resp = 409)
              \<and> contains (lower (resp_text resp)) ''already''))"
  unfolding loop_body_response[OF assms]
  by (simp add: invite_entry_def unauthorized_entry_def entry_def spec_status_tag_def)

theorem status_tag_of_response_witness:
  "norm_email example_cfg alice \<noteq> [] \<and> \<not> dry_run example_cfg
   \<and> fst (invite_call example_cfg net_500 alice w0) =
       Inr (\<lparr>status_code = 500, resp_text = []\<rparr>,
            mk_payload ''alice@example.com'' (Some ''Alice'') None (Some ''admin''))
   \<and> (\<exists>e. fst (snd (loop_body example_cfg net_500 0 alice [] w0)) = [] @ [e]
        \<and> o_status e = ''INVITE_ERROR 500'')"
proof -
  have h1: "norm_email example_cfg alice \<noteq> []" by code_simp
  have h2: "\<not> dry_run example_cfg" by code_simp
  have h3: "fst (invite_call example_cfg net_500 alice w0) =
       Inr (\<lparr>status_code = 500, resp_text = []\<rparr>,
            mk_payload ''alice@example.com'' (Some ''Alice'') None (Some ''admin''))"
    by code_simp
  have s: "str_int 500 = ''500''" by code_simp
  show ?thesis
    using h1 h2 h3 status_tag_of_response[OF h1 h2 h3, of 0 "[]"] by (auto simp: s)
qed

theorem status_tag_counterexample:
  "map o_status (fst (run_bulk_invite example_cfg net_401 [alice])) = [''INVITE_ERROR 401'']
   \<and> spec_status_tag 401 [] = ''AUTH_ERROR''
   \<and> map o_status (fst (run_bulk_invite example_cfg net_500 [alice])) = [''INVITE_ERROR 500'']
   \<and> spec_status_tag 500 [] = ''INVITE_ERROR:500''"
  by code_simp






lemma for_rows_dry_run:
  "dry_run cfg \<Longrightarrow>
   for_rows cfg net rows results w =
     (Continue,
      results @ map (\<lambda>(idx, r). if norm_email cfg r = [] then skipped_entry idx
                       else dry_run_entry idx (norm_email cfg r) (norm_first cfg r)
                              (norm_last cfg r) (norm_role cfg r)) rows,
      w)"
proof (induction rows arbitrary: results)
  case Nil
  then show ?case by simp
next
  case (Cons x rows)
  obtain idx r where x: "x = (idx, r)" by (cases x)
  show ?case
    using Cons.prems by (cases "norm_email cfg r = []")
      (simp_all add: x loop_body_skipped loop_body_dry_run Cons.IH)
qed

section \<open>Claims about rows that make no request\<close>

text \<open>
  C5. A row whose email value, after \<open>str\<close> and \<open>strip\<close>, is empty (the string of the cell
  is empty or only whitespace) gets the outcome with status SKIPPED: missing email, an empty
  email and its row number; the iteration leaves the world as it was (no POST, no sleep)
  and the loop goes on.
\<close>

theorem missing_email_skipped:
  assumes "list_all isspace (str_cell (py_or (row_get r (email_col cfg) (PyStr [])) (PyStr [])))"
  shows "norm_email cfg r = []
     \<and> loop_body cfg net idx r results w = (Continue, results @ [skipped_entry idx], w)
     \<and> o_status (skipped_entry idx) = ''SKIPPED: missing email''
     \<and> o_email (skipped_entry idx) = [] \<and> o_row (skipped_entry idx) = idx + 2"
proof -
  have "norm_email cfg r = []"
    using assms by (simp add: norm_email_def strip_empty_iff)
  then show ?thesis
    by (simp add: loop_body_skipped skipped_entry_def entry_def)
qed

theorem missing_email_skipped_witness:
  "list_all isspace (str_cell (py_or (row_get blank (email_col example_cfg) (PyStr [])) (PyStr [])))
   \<and> loop_body example_cfg net_500 3 blank [] w0 = (Continue, [] @ [skipped_entry 3], w0)
   \<and> o_status (skipped_entry 3) = ''SKIPPED: missing email''"
proof -
  have h: "list_all isspace
             (str_cell (py_or (row_get blank (email_col example_cfg) (PyStr [])) (PyStr [])))"
    by code_simp
  show ?thesis
    using h missing_email_skipped[OF h, of net_500 3 "[]" w0] by simp
qed

text \<open>
  C4 (as amended). In a dry run every row gives exactly one outcome and the world is left
  as it was: no POST and no sleep in the whole run. A row with a non-empty email gives the
  outcome DRY_RUN: would INVITE whose payload holds the four values read from the row; its
  role is the literal employee when no role column is selected and the trimmed text of the
  cell otherwise, also when that text is empty.
\<close>

theorem dry_run_outcomes:
  assumes "dry_run cfg"
  shows "run_bulk_invite cfg net df =
       (map (\<lambda>(idx, r). if norm_email cfg r = [] then skipped_entry idx
                else dry_run_entry idx (norm_email cfg r) (norm_first cfg r) (norm_last cfg r)
                       (norm_role cfg r)) (iterrows df),
        \<lparr>calls = 0, trace = []\<rparr>)
     \<and> length (fst (run_bulk_invite cfg net df)) = length df
     \<and> o_status (dry_run_entry idx (norm_email cfg r) (norm_first cfg r) (norm_last cfg r)
                   (norm_role cfg r)) = ''DRY_RUN: would INVITE''
     \<and> o_payload (dry_run_entry idx (norm_email cfg r) (norm_first cfg r) (norm_last cfg r)
                    (norm_role cfg r)) =
         Some \<lparr>dp_email = norm_email cfg r, dp_first = norm_first cfg r,
               dp_last = norm_last cfg r,
               dp_role = (if col_selected (role_col cfg)
                          then strip (str_cell (row_get r (role_col cfg) (PyStr [])))
                          else ''employee'')\<rparr>"
proof -
  have run: "run_bulk_invite cfg net df =
       (map (\<lambda>(idx, r). if norm_email cfg r = [] then skipped_entry idx
                else dry_run_entry idx (norm_email cfg r) (norm_first cfg r) (norm_last cfg r)
                       (norm_role cfg r)) (iterrows df),
        \<lparr>calls = 0, trace = []\<rparr>)"
    by (simp add: run_bulk_invite_def run_loop_def for_rows_dry_run[OF assms])
  have len: "length (fst (run_bulk_invite cfg net df)) = length df"
    unfolding run by (simp add: iterrows_def)
  show ?thesis
    using run len by (simp add: dry_run_entry_def entry_def norm_role_def)
qed

theorem dry_run_outcomes_witness:
  "dry_run example_dry_cfg
   \<and> run_bulk_invite example_dry_cfg net_500 [alice, blank] =
       ([dry_run_entry 0 ''alice@example.com'' ''Alice'' [] ''admin'', skipped_entry 1],
        \<lparr>calls = 0, trace = []\<rparr>)"
proof -
  have h: "dry_run example_dry_cfg" by code_simp
  have i: "iterrows [alice, blank] = [(0, alice), (1, blank)]"
    by (simp add: iterrows_def upt_rec)
  have v: "norm_email example_dry_cfg alice = ''alice@example.com''"
    "norm_first example_dry_cfg alice = ''Alice''" "norm_last example_dry_cfg alice = []"
    "norm_role example_dry_cfg alice = ''admin''" "norm_email example_dry_cfg blank = []"
    by code_simp+
  show ?thesis
    using h dry_run_outcomes[OF h, of net_500 "[alice, blank]"] by (simp add: i v)
qed

theorem dry_run_role_counterexample:
  "map o_payload (fst (run_bulk_invite example_dry_cfg net_500 [bob])) =
     [Some \<lparr>dp_email = ''bob@example.com'', dp_first = ''Bob'', dp_last = [], dp_role = []\<rparr>]
   \<and> spec_role example_dry_cfg bob = ''employee''"
  by code_simp

text \<open>
  C7 (as amended). The role read from a row is the literal employee when no role column
  is selected (the mapping is empty or the sentinel (none)); when a role column is selected
  it is the trimmed text of the cell, as for first and last, and stays empty when that text
  is empty. The default for an empty value is applied where the role is passed to the
  invitation client: the role of the request payload is the role of the specification.
\<close>

theorem role_normalization:
  "(col_selected (role_col cfg) \<longleftrightarrow> role_col cfg \<noteq> [] \<and> role_col cfg \<noteq> ''(none)'')
   \<and> (\<not> col_selected (role_col cfg) \<longrightarrow> norm_role cfg r = ''employee'')
   \<and> (col_selected (role_col cfg) \<longrightarrow>
        norm_role cfg r = strip (str_cell (row_get r (role_col cfg) (PyStr []))))
   \<and> (norm_role cfg r \<noteq> [] \<longrightarrow> norm_role cfg r = spec_role cfg r)
   \<and> (norm_role cfg r = [] \<longrightarrow> spec_role cfg r = ''employee'')
   \<and> pl_role (mk_payload (norm_email cfg r) (or_none (norm_first cfg r)) (or_none (norm_last cfg r))
                (Some (or_default (Some (norm_role cfg r))))) = spec_role cfg r"
  by (simp add: col_selected_def norm_role_def spec_role_def mk_payload_def Let_def)

theorem role_normalization_witness:
  "col_selected (role_col example_cfg) \<and> norm_role example_cfg alice = ''admin''
   \<and> \<not> col_selected (role_col (example_cfg\<lparr>role_col := ''(none)''\<rparr>))
   \<and> norm_role (example_cfg\<lparr>role_col := ''(none)''\<rparr>) alice = ''employee''
   \<and> norm_role example_cfg bob = [] \<and> spec_role example_cfg bob = ''employee''"
proof -
  have h1: "col_selected (role_col example_cfg)" by code_simp
  have h2: "\<not> col_selected (role_col (example_cfg\<lparr>role_col := ''(none)''\<rparr>))" by code_simp
  have v1: "strip (str_cell (row_get alice (role_col example_cfg) (PyStr []))) = ''admin''"
    by code_simp
  have v2: "norm_role example_cfg bob = []" by code_simp
  show ?thesis
    using h1 h2 v1 v2 role_normalization[of example_cfg alice]
      role_normalization[of "example_cfg\<lparr>role_col := ''(none)''\<rparr>" alice]
      role_normalization[of example_cfg bob]
    by simp
qed

theorem role_default_counterexample:
  "col_selected (role_col example_cfg)
   \<and> strip (str_cell (row_get bob (role_col example_cfg) (PyStr []))) = []
   \<and> norm_role example_cfg bob = []
   \<and> norm_role example_cfg bob \<noteq> ''employee''"
  by code_simp

lemma invite_call_last:
  "fst (invite_call cfg net r w) = Inl e \<longleftrightarrow>
   net (calls (snd (invite_call cfg net r w)) - 1) = RequestException e"
  unfolding invite_call_def post_invite_unfold fst_conv snd_conv
  by (subst post_loop_last) (simp split: net_result.splits)

lemma length_iterrows: "length (iterrows df) = length df"
  by (simp add: iterrows_def)

section \<open>Claims about pacing, failures and the early exit\<close>



text \<open>
  C6. When the real invite call of a row raises a \<open>RequestException\<close> with message \<open>e\<close>
  (the last POST of the call failed), the iteration appends the outcome NETWORK_ERROR with
  \<open>e\<close> as its error and the loop goes on with the remaining rows: the exception does not
  leave the loop.
\<close>

theorem network_error_continues:
  assumes "norm_email cfg r \<noteq> []" and "\<not> dry_run cfg"
    and "fst (invite_call cfg net r w) = Inl e"
  shows "loop_body cfg net idx r results w =
       (Continue, results @ [network_error_entry idx (norm_email cfg r) e],
        pace cfg (snd (invite_call cfg net r w)))
     \<and> for_rows cfg net ((idx, r) # rest) results w =
         for_rows cfg net rest (results @ [network_error_entry idx (norm_email cfg r) e])
           (pace cfg (snd (invite_call cfg net r w)))
     \<and> o_status (network_error_entry idx (norm_email cfg r) e) = ''NETWORK_ERROR''
     \<and> o_error (network_error_entry idx (norm_email cfg r) e) = Some e
     \<and> net (calls (snd (invite_call cfg net r w)) - 1) = RequestException e"
proof -
  have b: "loop_body cfg net idx r results w =
       (Continue, results @ [network_error_entry idx (norm_email cfg r) e],
        pace cfg (snd (invite_call cfg net r w)))"
    by (rule loop_body_exception[OF assms])
  have n: "net (calls (snd (invite_call cfg net r w)) - 1) = RequestException e"
    using assms(3) by (simp add: invite_call_last)
  show ?thesis
    using n by (simp add: b network_error_entry_def entry_def)
qed

theorem network_error_continues_witness:
  "norm_email example_cfg alice \<noteq> [] \<and> \<not> dry_run example_cfg
   \<and> fst (invite_call example_cfg net_down alice w0) = Inl ''connection refused''
   \<and> for_rows example_cfg net_down [(0, alice), (1, bob)] [] w0 =
       for_rows example_cfg net_down [(1, bob)]
         ([] @ [network_error_entry 0 (norm_email example_cfg alice) ''connection refused''])
         (pace example_cfg (snd (invite_call example_cfg net_down alice w0)))
   \<and> map o_status (fst (snd (for_rows example_cfg net_down [(0, alice), (1, bob)] [] w0))) =
       [''NETWORK_ERROR'', ''INVITED'']"
proof -
  have h1: "norm_email example_cfg alice \<noteq> []" by code_simp
  have h2: "\<not> dry_run example_cfg" by code_simp
  have h3: "fst (invite_call example_cfg net_down alice w0) = Inl ''connection refused''"
    by code_simp
  have v: "map o_status (fst (snd (for_rows example_cfg net_down [(0, alice), (1, bob)] [] w0))) =
       [''NETWORK_ERROR'', ''INVITED'']"
    by code_simp
  show ?thesis
    using h1 h2 h3 v network_error_continues[OF h1 h2 h3, where idx = 0 and rest = "[(1, bob)]"
        and results = "[]"]
    by blast
qed

text \<open>
  C2. When the rows before a row were processed without leaving the loop and the real
  invite call of that row returns a 401 response, the run ends there: the list returned is
  the outcomes of the rows before it followed by the outcome of that row, one entry for
  each row up to it, whatever rows come after; these are not processed, the effects of the
  run end with the failed call, and the list is returned as a value.
\<close>

theorem unauthorized_stops_run:
  assumes "run_loop cfg net pre = (Continue, results1, w1)"
    and "norm_email cfg r \<noteq> []" and "\<not> dry_run cfg"
    and "fst (invite_call cfg net r w1) = Inr (resp, pl)" and "status_code resp = 401"
  shows "run_loop cfg net (pre @ r # post) =
       (Break, results1 @ [unauthorized_entry (int (length pre)) (norm_email cfg r) resp],
        snd (invite_call cfg net r w1))
     \<and> run_bulk_invite cfg net (pre @ r # post) =
         (results1 @ [unauthorized_entry (int (length pre)) (norm_email cfg r) resp],
          snd (invite_call cfg net r w1))
     \<and> fst (run_bulk_invite cfg net pre) = results1
     \<and> length (fst (run_bulk_invite cfg net (pre @ r # post))) = length pre + 1"
proof -
  let ?e = "unauthorized_entry (int (length pre)) (norm_email cfg r) resp"
  let ?rest = "zip (map int [Suc (length pre)..<Suc (length pre + length post)]) post"
  have pre: "for_rows cfg net (iterrows pre) [] \<lparr>calls = 0, trace = []\<rparr> = (Continue, results1, w1)"
    using assms(1) by (simp add: run_loop_def)
  have body: "loop_body cfg net (int (length pre)) r results1 w1 =
              (Break, results1 @ [?e], snd (invite_call cfg net r w1))"
    using assms(5) by (simp add: loop_body_response[OF assms(2,3,4)])
  have "for_rows cfg net ((int (length pre), r) # ?rest) results1 w1 =
        (Break, results1 @ [?e], snd (invite_call cfg net r w1))"
    by (simp add: body)
  then have loop: "run_loop cfg net (pre @ r # post) =
        (Break, results1 @ [?e], snd (invite_call cfg net r w1))"
    by (simp add: run_loop_def iterrows_append for_rows_append pre)
  have len: "length results1 = length pre"
    using for_rows_length[OF pre] by (simp add: length_iterrows)
  show ?thesis
    using loop len assms(1) by (simp add: run_bulk_invite_def)
qed

theorem unauthorized_stops_run_witness:
  "fst (run_loop example_cfg net_third_401 [alice, bob]) = Continue
   \<and> norm_email example_cfg alice \<noteq> [] \<and> \<not> dry_run example_cfg
   \<and> fst (invite_call example_cfg net_third_401 alice
           (snd (snd (run_loop example_cfg net_third_401 [alice, bob])))) =
       Inr (\<lparr>status_code = 401, resp_text = ''unauthorized''\<rparr>,
            mk_payload ''alice@example.com'' (Some ''Alice'') None (Some ''admin''))
   \<and> length (fst (run_bulk_invite example_cfg net_third_401 [alice, bob, alice, bob, alice])) = 3
   \<and> map o_status (fst (run_bulk_invite example_cfg net_third_401 [alice, bob, alice, bob, alice]))
       = [''INVITED'', ''INVITED'', ''INVITE_ERROR 401'']
   \<and> map o_row (fst (run_bulk_invite example_cfg net_third_401 [alice, bob, alice, bob, alice]))
       = [2, 3, 4]"
proof -
  let ?X = "run_loop example_cfg net_third_401 [alice, bob]"
  have c: "fst ?X = Continue" by code_simp
  then have h1: "?X = (Continue, fst (snd ?X), snd (snd ?X))"
    by (metis prod.collapse)
  have h2: "norm_email example_cfg alice \<noteq> []" by code_simp
  have h3: "\<not> dry_run example_cfg" by code_simp
  have h4: "fst (invite_call example_cfg net_third_401 alice (snd (snd ?X))) =
       Inr (\<lparr>status_code = 401, resp_text = ''unauthorized''\<rparr>,
            mk_payload ''alice@example.com'' (Some ''Alice'') None (Some ''admin''))"
    by code_simp
  have h5: "status_code \<lparr>status_code = 401, resp_text = ''unauthorized''\<rparr> = 401" by simp
  have v: "map o_status (fst (run_bulk_invite example_cfg net_third_401 [alice, bob, alice, bob, alice]))
       = [''INVITED'', ''INVITED'', ''INVITE_ERROR 401'']"
    "map o_row (fst (run_bulk_invite example_cfg net_third_401 [alice, bob, alice, bob, alice]))
       = [2, 3, 4]"
    by code_simp+
  have "length (fst (run_bulk_invite example_cfg net_third_401 ([alice, bob] @ alice # [bob, alice])))
        = length [alice, bob] + 1"
    using unauthorized_stops_run[OF h1 h2 h3 h4 h5, of "[bob, alice]"] by blast
  then show ?thesis
    using c h2 h3 h4 v by simp
qed

end
